theory Spec2Isabelle
  imports Complex_Main "HOL-Library.Sublist" "HOL-Library.Multiset"
begin

section \<open>Python strings\<close>

text \<open>
  A Python \<open>str\<close> is a sequence of Unicode code points, and \<open>len\<close> counts code
  points. A character is therefore modelled by its code point, a natural number, and a
  string by the list of its code points. \<open>ascii\<close> turns an ASCII literal of the source
  into that representation.
\<close>

type_synonym pychar = nat
type_synonym pystr = "pychar list"

definition ascii :: "string \<Rightarrow> pystr" where
  "ascii s = map of_char s"

definition underscore :: pychar where
  "underscore = 95"

section \<open>Configuration (main.py, lines 19 to 25)\<close>

definition TARGET_SUBREDDIT :: pystr where
  "TARGET_SUBREDDIT = ascii ''SluttyConfessions''"

definition POST_LIMIT :: nat where
  "POST_LIMIT = 10"

definition MIN_TEXT_LENGTH :: nat where
  "MIN_TEXT_LENGTH = 50"

definition MAX_TEXT_LENGTH :: nat where
  "MAX_TEXT_LENGTH = 5000"

definition AUDIO_DIR :: pystr where
  "AUDIO_DIR = ascii ''audio''"

section \<open>sanitize_filename (main.py, lines 37 to 46)\<close>

text \<open>
  The character class \<open>[a-zA-Z0-9_\-\.]\<close> of the first substitution. The pattern is a
  \<open>str\<close> pattern without flags, so the ranges are the ASCII ranges only.
\<close>

definition is_filename_char :: "pychar \<Rightarrow> bool" where
  "is_filename_char c \<longleftrightarrow>
     (97 \<le> c \<and> c \<le> 122) \<or> (65 \<le> c \<and> c \<le> 90) \<or> (48 \<le> c \<and> c \<le> 57)
     \<or> c = 95 \<or> c = 45 \<or> c = 46"

text \<open>\<open>re.sub(r'[^a-zA-Z0-9_\-\.]', '_', name)\<close>: every other character becomes an underscore.\<close>

definition replace_invalid :: "pystr \<Rightarrow> pystr" where
  "replace_invalid name = map (\<lambda>c. if is_filename_char c then c else underscore) name"

text \<open>\<open>re.sub(r'_+', '_', name)\<close>: every maximal run of underscores becomes one underscore.\<close>

fun collapse_underscores :: "pystr \<Rightarrow> pystr" where
  "collapse_underscores [] = []"
| "collapse_underscores [c] = [c]"
| "collapse_underscores (c # d # cs) =
     (if c = underscore \<and> d = underscore then collapse_underscores (d # cs)
      else c # collapse_underscores (d # cs))"

text \<open>\<open>name.strip('_')\<close>: underscores are removed at both ends.\<close>

definition strip_underscores :: "pystr \<Rightarrow> pystr" where
  "strip_underscores name =
     rev (dropWhile (\<lambda>c. c = underscore) (rev (dropWhile (\<lambda>c. c = underscore) name)))"

definition sanitize_filename :: "pystr \<Rightarrow> pystr" where
  "sanitize_filename name =
     take 100 (strip_underscores (collapse_underscores (replace_invalid name)))"

text \<open>The four properties the specification lists for the output of the function.\<close>

definition no_double_underscore :: "pystr \<Rightarrow> bool" where
  "no_double_underscore s \<longleftrightarrow> \<not> sublist [underscore, underscore] s"

definition starts_with_underscore :: "pystr \<Rightarrow> bool" where
  "starts_with_underscore s \<longleftrightarrow> (case s of [] \<Rightarrow> False | c # _ \<Rightarrow> c = underscore)"

definition ends_with_underscore :: "pystr \<Rightarrow> bool" where
  "ends_with_underscore s \<longleftrightarrow> starts_with_underscore (rev s)"

section \<open>Exceptions\<close>

text \<open>
  The exception classes the program meets. In Python 3 \<open>IOError\<close> is an alias of
  \<open>OSError\<close>; \<open>json.JSONDecodeError\<close> and \<open>UnicodeDecodeError\<close> are subclasses of
  \<open>ValueError\<close>, neither is a subclass of the other.
\<close>

datatype error =
  OSError | JSONDecodeError | UnicodeDecodeError | TypeError | ValueError | OverflowError

section \<open>The deduplication store (main.py, lines 49 to 67)\<close>

subsection \<open>What the json module and the file system hand to the program\<close>

text \<open>
  The value \<open>json.load\<close> returns for a JSON document. \<open>JFloat\<close> carries the value of a
  finite float.
\<close>

datatype json =
    JNull
  | JBool bool
  | JInt int
  | JFloat real
  | JStr pystr
  | JArr "json list"
  | JObj "(pystr \<times> json) list"

text \<open>
  The state of the file \<open>processed_posts.json\<close>, by what \<open>os.path.exists\<close>, \<open>open\<close>
  and \<open>json.load\<close> do with it: it does not exist; it exists and \<open>open\<close> raises an
  \<open>OSError\<close> (a directory, a file without read permission); its bytes are not text in
  the encoding, so reading raises \<open>UnicodeDecodeError\<close>; its text is not a JSON document,
  so the parser raises \<open>JSONDecodeError\<close>; or it holds a JSON document.
\<close>

datatype history_file = Absent | Unreadable | Undecodable | Malformed | Document json

definition os_path_exists :: "history_file \<Rightarrow> bool" where
  "os_path_exists f \<longleftrightarrow> f \<noteq> Absent"

text \<open>\<open>with open(HISTORY_FILE, 'r') as f: json.load(f)\<close>\<close>

fun open_json_load :: "history_file \<Rightarrow> error + json" where
  "open_json_load Absent = Inl OSError"
| "open_json_load Unreadable = Inl OSError"
| "open_json_load Undecodable = Inl UnicodeDecodeError"
| "open_json_load Malformed = Inl JSONDecodeError"
| "open_json_load (Document v) = Inr v"

text \<open>
  The elements of a Python set, up to Python equality: \<open>True == 1 == 1.0\<close>, so the
  numbers and the booleans are one kind of key.
\<close>

datatype pykey = KNone | KNum real | KStr pystr

text \<open>\<open>hash(v)\<close>: lists and dicts are unhashable.\<close>

fun hashable :: "json \<Rightarrow> pykey option" where
  "hashable JNull = Some KNone"
| "hashable (JBool b) = Some (KNum (if b then 1 else 0))"
| "hashable (JInt i) = Some (KNum (of_int i))"
| "hashable (JFloat r) = Some (KNum r)"
| "hashable (JStr s) = Some (KStr s)"
| "hashable (JArr vs) = None"
| "hashable (JObj kvs) = None"

text \<open>
  \<open>set(v)\<close>: a list gives the set of its elements and raises \<open>TypeError\<close> when one of
  them is unhashable, a dict gives the set of its keys, a string the set of its
  characters; \<open>None\<close>, a boolean or a number is not iterable, which is a \<open>TypeError\<close>.
\<close>

fun py_set :: "json \<Rightarrow> error + pykey set" where
  "py_set (JArr vs) =
     (case those (map hashable vs) of None \<Rightarrow> Inl TypeError | Some ks \<Rightarrow> Inr (set ks))"
| "py_set (JObj kvs) = Inr (set (map (\<lambda>kv. KStr (fst kv)) kvs))"
| "py_set (JStr s) = Inr (set (map (\<lambda>c. KStr [c]) s))"
| "py_set JNull = Inl TypeError"
| "py_set (JBool b) = Inl TypeError"
| "py_set (JInt i) = Inl TypeError"
| "py_set (JFloat r) = Inl TypeError"

subsection \<open>load_processed_posts\<close>

text \<open>The clause \<open>except (json.JSONDecodeError, IOError)\<close> of line 55.\<close>

definition load_catches :: "error \<Rightarrow> bool" where
  "load_catches e \<longleftrightarrow> e = JSONDecodeError \<or> e = OSError"

definition load_processed_posts :: "history_file \<Rightarrow> error + pykey set" where
  "load_processed_posts f =
     (if os_path_exists f then
        (case (case open_json_load f of Inl e \<Rightarrow> Inl e | Inr v \<Rightarrow> py_set v) of
           Inr s \<Rightarrow> Inr s
         | Inl e \<Rightarrow> if load_catches e then Inr {} else Inl e)
      else Inr {})"

subsection \<open>The text json.dump writes and what json.load reads from it\<close>

text \<open>
  A character of a Python \<open>str\<close> is a code point below \<open>0x110000\<close>; the surrogates
  \<open>0xD800\<close> to \<open>0xDFFF\<close> are code points like the others, and a \<open>str\<close> may hold them.
\<close>

definition is_str :: "pystr \<Rightarrow> bool" where
  "is_str s \<longleftrightarrow> list_all (\<lambda>c. c < 1114112) s"

definition high_surrogate :: "nat \<Rightarrow> bool" where
  "high_surrogate u \<longleftrightarrow> 55296 \<le> u \<and> u \<le> 56319"

definition low_surrogate :: "nat \<Rightarrow> bool" where
  "low_surrogate u \<longleftrightarrow> 56320 \<le> u \<and> u \<le> 57343"

text \<open>
  The body of a JSON string literal, as the sequence of its items: a character written as
  it is, or an escape of four hexadecimal digits with its sixteen-bit value. The short
  escapes of the quote, the backslash, the backspace, the tabulation, the line feed, the
  form feed and the carriage return are read back as the character they stand for and
  count as the character here.
\<close>

datatype item = Literal pychar | Escape nat

text \<open>
  \<open>json.dump\<close> with the default \<open>ensure_ascii=True\<close> (\<open>encode_basestring_ascii\<close> of the
  json module): a printable ASCII character, from the space to the tilde, is written as it
  is or as its short escape, as are the five control characters with a short escape;
  another character below \<open>0x10000\<close> is written as one escape, and a character from
  \<open>0x10000\<close> as the escapes of its two surrogates, \<open>0xd800 | ((n >> 10) & 0x3ff)\<close> and
  \<open>0xdc00 | (n & 0x3ff)\<close> for \<open>n = c - 0x10000\<close>.
\<close>

definition encode_char :: "pychar \<Rightarrow> item list" where
  "encode_char c =
     (if (32 \<le> c \<and> c \<le> 126) \<or> c \<in> {8, 9, 10, 12, 13} then [Literal c]
      else if c < 65536 then [Escape c]
      else [Escape (55296 + ((c - 65536) div 1024) mod 1024),
            Escape (56320 + (c - 65536) mod 1024)])"

definition encode_basestring_ascii :: "pystr \<Rightarrow> item list" where
  "encode_basestring_ascii s = concat (map encode_char s)"

text \<open>
  \<open>json.load\<close> on a string literal (\<open>scanstring\<close> of the json module): an escape in the
  range of the high surrogates, followed at once by an escape in the range of the low
  surrogates, is read as the one character
  \<open>0x10000 + (((u - 0xd800) << 10) | (v - 0xdc00))\<close>; any other escape is read as the
  character of its value.
\<close>

fun scanstring :: "item list \<Rightarrow> pystr" where
  "scanstring [] = []"
| "scanstring (Literal c # us) = c # scanstring us"
| "scanstring (Escape u # Escape v # us) =
     (if high_surrogate u \<and> low_surrogate v
      then (65536 + ((u - 55296) * 1024 + (v - 56320))) # scanstring us
      else u # scanstring (Escape v # us))"
| "scanstring (Escape u # us) = u # scanstring us"

text \<open>
  The value \<open>json.load\<close> returns for the file that \<open>json.dump\<close> wrote for a list of
  strings: an array of the strings read back.
\<close>

definition json_dump_load :: "pystr list \<Rightarrow> json" where
  "json_dump_load processed_list =
     JArr (map (\<lambda>s. JStr (scanstring (encode_basestring_ascii s))) processed_list)"

text \<open>A string in which no high surrogate is followed at once by a low surrogate.\<close>

fun no_surrogate_pair :: "pystr \<Rightarrow> bool" where
  "no_surrogate_pair [] = True"
| "no_surrogate_pair [c] = True"
| "no_surrogate_pair (c # d # s) =
     (\<not> (high_surrogate c \<and> low_surrogate d) \<and> no_surrogate_pair (d # s))"

subsection \<open>save_processed_posts\<close>

text \<open>
  What the file system does with the write of line 64: the file is written; \<open>open\<close>
  raises an \<open>OSError\<close> and the file stays as it was; or the file is opened, which
  truncates it, and the write raises an \<open>OSError\<close> before the array is complete, which
  leaves text that is not a JSON document.
\<close>

datatype write_outcome = Written | OpenFails | WriteFails

text \<open>
  \<open>processed_list\<close> is \<open>list(processed_ids)\<close>, the members of the set in the order the
  interpreter enumerates them. The function catches the \<open>IOError\<close> and returns nothing;
  its effect is the new state of the file.
\<close>

definition save_processed_posts :: "write_outcome \<Rightarrow> pystr list \<Rightarrow> history_file \<Rightarrow> history_file" where
  "save_processed_posts io processed_list f =
     (case io of
        Written \<Rightarrow> Document (json_dump_load processed_list)
      | OpenFails \<Rightarrow> f
      | WriteFails \<Rightarrow> Malformed)"

section \<open>Speech synthesis (main.py, lines 70 to 94)\<close>

text \<open>
  What \<open>Path(AUDIO_DIR).mkdir(exist_ok=True)\<close> finds at the path \<open>audio\<close>: a directory;
  nothing, where the directory can be created; or something that makes the call raise, a
  regular file of that name (\<open>FileExistsError\<close>) or a parent directory that refuses the
  creation (\<open>PermissionError\<close>). Both exceptions are subclasses of \<open>OSError\<close>.
\<close>

datatype dir_state = Directory | Creatable | Blocked

text \<open>
  The part of the world the pipeline changes: the paths that exist on disk, the record of
  the calls made to the synthesis library, each with the text and the path it was given,
  and the state of the audio directory.
\<close>

record world =
  existing_paths :: "pystr set"
  tts_calls :: "(pystr \<times> pystr) list"
  audio_dir :: dir_state

text \<open>Line 78.\<close>

definition mkdir :: "world \<Rightarrow> error + world" where
  "mkdir w =
     (case audio_dir w of
        Directory \<Rightarrow> Inr w
      | Creatable \<Rightarrow> Inr (w\<lparr>audio_dir := Directory\<rparr>)
      | Blocked \<Rightarrow> Inl OSError)"

text \<open>
  One attempt, lines 84 and 85: the library writes the audio file, or raises. It opens the
  target file before it fetches the audio, so a failed attempt may leave a file behind;
  \<open>Failed True\<close> is that case.
\<close>

datatype tts_outcome = Saved | Failed bool

text \<open>
  The synthesis dependency: the outcome of a call, given the number of calls made before
  it, the text and the path.
\<close>

type_synonym gtts = "nat \<Rightarrow> pystr \<Rightarrow> pystr \<Rightarrow> tts_outcome"

text \<open>\<open>os.path.join(a, b)\<close> on a POSIX system.\<close>

definition os_path_join :: "pystr \<Rightarrow> pystr \<Rightarrow> pystr" where
  "os_path_join a b =
     (if b \<noteq> [] \<and> hd b = 47 then b
      else if a = [] \<or> last a = 47 then a @ b
      else a @ [47] @ b)"

definition truncation_suffix :: pystr where
  "truncation_suffix = ascii ''... [Content truncated due to length]''"

text \<open>Lines 73 to 75.\<close>

definition limit_text :: "pystr \<Rightarrow> pystr" where
  "limit_text text =
     (if length text > MAX_TEXT_LENGTH then take MAX_TEXT_LENGTH text @ truncation_suffix
      else text)"

definition record_call :: "pystr \<Rightarrow> pystr \<Rightarrow> world \<Rightarrow> world" where
  "record_call text filepath w = w\<lparr>tts_calls := tts_calls w @ [(text, filepath)]\<rparr>"

definition create_file :: "pystr \<Rightarrow> world \<Rightarrow> world" where
  "create_file filepath w = w\<lparr>existing_paths := insert filepath (existing_paths w)\<rparr>"

text \<open>
  The loop \<open>for attempt in range(3)\<close> of lines 82 to 92, over the attempts that remain.
  After the loop, line 94 returns \<open>None\<close>.
\<close>

fun tts_attempts :: "gtts \<Rightarrow> pystr \<Rightarrow> pystr \<Rightarrow> pystr \<Rightarrow> nat list \<Rightarrow> world \<Rightarrow> pystr option \<times> world" where
  "tts_attempts g text filename filepath [] w = (None, w)"
| "tts_attempts g text filename filepath (attempt # rest) w =
     (case g (length (tts_calls w)) text filepath of
        Saved \<Rightarrow> (Some filename, create_file filepath (record_call text filepath w))
      | Failed left \<Rightarrow>
          (let w' = (if left then create_file filepath (record_call text filepath w)
                     else record_call text filepath w)
           in if attempt = 2 then (None, w')
              else tts_attempts g text filename filepath rest w'))"

text \<open>
  Lines 70 to 94. The call of line 78 is outside the \<open>try\<close>: when it raises, the
  exception leaves the function before any call to the synthesis library.
\<close>

definition generate_tts :: "gtts \<Rightarrow> pystr \<Rightarrow> pystr \<Rightarrow> world \<Rightarrow> error + (pystr option \<times> world)" where
  "generate_tts g text filename w =
     (case mkdir w of
        Inl e \<Rightarrow> Inl e
      | Inr w' \<Rightarrow>
          Inr (tts_attempts g (limit_text text) filename (os_path_join AUDIO_DIR filename)
                 [0, 1, 2] w'))"

section \<open>The fetch, filter and synthesize pipeline (main.py, lines 120 to 176)\<close>

text \<open>A submission of the forum, with the attributes the pipeline reads.\<close>

record submission =
  submission_id :: pystr
  title :: pystr
  selftext :: pystr
  is_self :: bool
  stickied :: bool
  created_utc :: real
  permalink :: pystr

text \<open>
  The dictionary built at lines 161 to 168. \<open>generate_html\<close> asks whether the keys
  \<open>date\<close> and \<open>url\<close> are present, so these two are optional here.
\<close>

record post =
  post_id :: pystr
  post_title :: pystr
  post_text :: pystr
  audio_file :: pystr
  post_date :: "real option"
  post_url :: "pystr option"

text \<open>\<open>str.isspace\<close> for one character, and \<open>str.strip()\<close>.\<close>

definition is_space :: "pychar \<Rightarrow> bool" where
  "is_space c \<longleftrightarrow>
     (9 \<le> c \<and> c \<le> 13) \<or> (28 \<le> c \<and> c \<le> 32) \<or> c = 133 \<or> c = 160 \<or> c = 5760
     \<or> (8192 \<le> c \<and> c \<le> 8202) \<or> c = 8232 \<or> c = 8233 \<or> c = 8239 \<or> c = 8287
     \<or> c = 12288"

definition strip :: "pystr \<Rightarrow> pystr" where
  "strip s = rev (dropWhile is_space (rev (dropWhile is_space s)))"

text \<open>The condition of lines 130 to 134: the submission is skipped.\<close>

definition skipped :: "pystr set \<Rightarrow> submission \<Rightarrow> bool" where
  "skipped processed_ids s \<longleftrightarrow>
     submission_id s \<in> processed_ids \<or> stickied s \<or> is_self s = False
     \<or> selftext s = [] \<or> length (selftext s) < MIN_TEXT_LENGTH"

definition clean_title :: "submission \<Rightarrow> pystr" where
  "clean_title s = strip (title s)"

definition full_text :: "submission \<Rightarrow> pystr" where
  "full_text s = ascii ''Title: '' @ clean_title s @ ascii ''. Story: '' @ selftext s"

definition audio_filename :: "submission \<Rightarrow> pystr" where
  "audio_filename s =
     (submission_id s @ ascii ''_'' @ sanitize_filename (clean_title s)) @ ascii ''.mp3''"

definition audio_path :: "submission \<Rightarrow> pystr" where
  "audio_path s = os_path_join AUDIO_DIR (audio_filename s)"

text \<open>The state of the loop: the list \<open>posts_data\<close>, the set \<open>processed_ids\<close>, the world.\<close>

record run =
  posts_data :: "post list"
  processed_ids :: "pystr set"
  run_world :: world

text \<open>The dictionary of lines 161 to 168.\<close>

definition new_post :: "submission \<Rightarrow> pystr \<Rightarrow> post" where
  "new_post s audio =
     \<lparr>post_id = submission_id s, post_title = clean_title s, post_text = selftext s,
      audio_file = audio, post_date = Some (created_utc s),
      post_url = Some (ascii ''https://www.reddit.com'' @ permalink s)\<rparr>"

text \<open>Lines 161 to 169: the post is appended and its identifier joins the set.\<close>

definition accept :: "submission \<Rightarrow> pystr \<Rightarrow> run \<Rightarrow> run" where
  "accept s audio r =
     r\<lparr>posts_data := posts_data r @ [new_post s audio],
       processed_ids := insert (submission_id s) (processed_ids r)\<rparr>"

text \<open>
  The body of the loop, lines 129 to 169, for one submission: the state at its end, or the
  exception that leaves it. \<open>not audio_file\<close> holds for \<open>None\<close> and for the empty string.
\<close>

definition try_submission :: "gtts \<Rightarrow> submission \<Rightarrow> run \<Rightarrow> error + run" where
  "try_submission g s r =
     (if skipped (processed_ids r) s then Inr r
      else if audio_path s \<in> existing_paths (run_world r) then Inr (accept s (audio_filename s) r)
      else
        (case generate_tts g (full_text s) (audio_filename s) (run_world r) of
           Inl e \<Rightarrow> Inl e
         | Inr (None, w) \<Rightarrow> Inr (r\<lparr>run_world := w\<rparr>)
         | Inr (Some audio, w) \<Rightarrow>
             if audio = [] then Inr (r\<lparr>run_world := w\<rparr>)
             else Inr (accept s audio (r\<lparr>run_world := w\<rparr>))))"

text \<open>
  The state when the body has ended, at its end or by an exception. The exception of
  line 78 comes before anything is changed, so it leaves the state as it was.
\<close>

definition process_submission :: "gtts \<Rightarrow> submission \<Rightarrow> run \<Rightarrow> run" where
  "process_submission g s r = (case try_submission g s r of Inl e \<Rightarrow> r | Inr r' \<Rightarrow> r')"

text \<open>
  The loop of line 128 over the submissions it receives. An exception of the body leaves
  the loop: it is caught at line 171 or 173 and logged, and the function goes on to
  line 176 with the lists as they are.
\<close>

fun process_all :: "gtts \<Rightarrow> submission list \<Rightarrow> run \<Rightarrow> run" where
  "process_all g [] r = r"
| "process_all g (s # ss) r =
     (case try_submission g s r of Inl e \<Rightarrow> r | Inr r' \<Rightarrow> process_all g ss r')"

text \<open>
  The forum: the hot ranking of the subreddit, and whether the listing raises while it is
  iterated, after how many submissions. \<open>hot\<close> gives the submissions the loop receives
  before the listing ends or raises; an exception that leaves the loop is caught at
  line 171 or 173 and logged, and the function goes on to line 176.
\<close>

record reddit =
  ranking :: "submission list"
  raises_after :: "nat option"

definition hot :: "reddit \<Rightarrow> nat \<Rightarrow> submission list" where
  "hot rd limit =
     (case raises_after rd of
        None \<Rightarrow> take limit (ranking rd)
      | Some k \<Rightarrow> take (min k limit) (ranking rd))"

text \<open>The function returns \<open>posts_data\<close> and \<open>processed_ids\<close>; the world is its effect.\<close>

definition fetch_and_process_posts :: "gtts \<Rightarrow> reddit \<Rightarrow> pystr set \<Rightarrow> world \<Rightarrow> run" where
  "fetch_and_process_posts g rd ids w =
     process_all g (hot rd POST_LIMIT)
       \<lparr>posts_data = [], processed_ids = ids, run_world = w\<rparr>"

section \<open>The page renderer (main.py, lines 179 to 326)\<close>

subsection \<open>Dates\<close>

text \<open>A \<open>datetime\<close> object, as far as \<open>strftime\<close> reads it.\<close>

record datetime =
  year :: nat
  month :: nat
  day :: nat
  hour :: nat
  minute :: nat
  second :: nat

definition digit :: "nat \<Rightarrow> pychar" where
  "digit n = 48 + n mod 10"

text \<open>The decimal digits of a number; the directive \<open>%Y\<close> for the year.\<close>

fun decimal :: "nat \<Rightarrow> pystr" where
  "decimal n = (if n < 10 then [digit n] else decimal (n div 10) @ [digit n])"

text \<open>The directives \<open>%m\<close>, \<open>%d\<close>, \<open>%H\<close>, \<open>%M\<close> and \<open>%S\<close>: two digits.\<close>

definition two_digits :: "nat \<Rightarrow> pystr" where
  "two_digits n = [digit (n div 10), digit n]"

text \<open>\<open>strftime("%Y-%m-%d %H:%M")\<close>, line 287.\<close>

definition strftime_minutes :: "datetime \<Rightarrow> pystr" where
  "strftime_minutes d =
     decimal (year d) @ ascii ''-'' @ two_digits (month d) @ ascii ''-'' @ two_digits (day d)
     @ ascii '' '' @ two_digits (hour d) @ ascii '':'' @ two_digits (minute d)"

text \<open>\<open>strftime("%Y-%m-%d %H:%M:%S")\<close>, line 309.\<close>

definition strftime_seconds :: "datetime \<Rightarrow> pystr" where
  "strftime_seconds d = strftime_minutes d @ ascii '':'' @ two_digits (second d)"

text \<open>
  What the renderer takes from its environment: \<open>datetime.fromtimestamp\<close>, which
  converts a timestamp to local time or raises (a \<open>ValueError\<close> for a year out of range,
  an \<open>OverflowError\<close> or an \<open>OSError\<close> for a timestamp the platform cannot convert);
  \<open>datetime.now()\<close>; and whether the page can be written.
\<close>

record html_env =
  fromtimestamp :: "real \<Rightarrow> error + datetime"
  now :: datetime
  html_writable :: bool

subsection \<open>The template\<close>

text \<open>
  The first part of the document, lines 183 to 273, cut where the name of the subreddit
  is inserted.
\<close>

definition html_head_a :: string where
  \<open>html_head_a =
     ''<!DOCTYPE html>\<newline>'' @
     ''<html lang="en">\<newline>'' @
     ''<head>\<newline>'' @
     ''    <meta charset="UTF-8">\<newline>'' @
     ''    <meta name="viewport" content="width=device-width, initial-scale=1.0">\<newline>'' @
     ''    <title>r/''\<close>

definition html_head_b :: string where
  \<open>html_head_b =
     '' Narrated</title>\<newline>'' @
     ''    <style>\<newline>'' @
     ''        body { \<newline>'' @
     ''            font-family: 'Segoe UI', Tahoma, Geneva, Verdana, sans-serif; \<newline>'' @
     ''            line-height: 1.6; \<newline>'' @
     ''            padding: 20px; \<newline>'' @
     ''            max-width: 800px; \<newline>'' @
     ''            margin: auto; \<newline>'' @
     ''            background-color: #f5f5f5; \<newline>'' @
     ''            color: #333; \<newline>'' @
     ''        }\<newline>'' @
     ''        header { \<newline>'' @
     ''            text-align: center; \<newline>'' @
     ''            margin-bottom: 30px; \<newline>'' @
     ''            padding-bottom: 20px; \<newline>'' @
     ''            border-bottom: 1px solid #ddd; \<newline>'' @
     ''        }\<newline>'' @
     ''        .post { \<newline>'' @
     ''            background-color: #fff; \<newline>'' @
     ''            border: 1px solid #ddd; \<newline>'' @
     ''            border-radius: 8px; \<newline>'' @
     ''            margin-bottom: 25px; \<newline>'' @
     ''            padding: 20px; \<newline>'' @
     ''            box-shadow: 0 2px 4px rgba(0,0,0,0.1); \<newline>'' @
     ''            transition: transform 0.2s ease; \<newline>'' @
     ''        }\<newline>'' @
     ''        .post:hover { \<newline>'' @
     ''            transform: translateY(-3px); \<newline>'' @
     ''            box-shadow: 0 4px 8px rgba(0,0,0,0.15); \<newline>'' @
     ''        }\<newline>'' @
     ''        h1 { \<newline>'' @
     ''            color: #2c3e50; \<newline>'' @
     ''        }\<newline>'' @
     ''        h2 { \<newline>'' @
     ''            margin-top: 0; \<newline>'' @
     ''            color: #3498db; \<newline>'' @
     ''            font-size: 1.5rem; \<newline>'' @
     ''        }\<newline>'' @
     ''        audio { \<newline>'' @
     ''            width: 100%; \<newline>'' @
     ''            margin: 15px 0; \<newline>'' @
     ''            border-radius: 30px; \<newline>'' @
     ''        }\<newline>'' @
     ''        details { \<newline>'' @
     ''            margin-top: 15px; \<newline>'' @
     ''            cursor: pointer; \<newline>'' @
     ''        }\<newline>'' @
     ''        summary { \<newline>'' @
     ''            font-weight: bold; \<newline>'' @
     ''            color: #555; \<newline>'' @
     ''            padding: 5px 0; \<newline>'' @
     ''        }\<newline>'' @
     ''        p { \<newline>'' @
     ''            white-space: pre-wrap; /* Preserve line breaks */ \<newline>'' @
     ''            margin-top: 10px; \<newline>'' @
     ''            line-height: 1.7; \<newline>'' @
     ''        }\<newline>'' @
     ''        .meta { \<newline>'' @
     ''            font-size: 0.85rem; \<newline>'' @
     ''            color: #888; \<newline>'' @
     ''            margin-top: 15px; \<newline>'' @
     ''            text-align: right; \<newline>'' @
     ''        }\<newline>'' @
     ''        .meta a { \<newline>'' @
     ''            color: #3498db; \<newline>'' @
     ''            text-decoration: none; \<newline>'' @
     ''        }\<newline>'' @
     ''        .meta a:hover { \<newline>'' @
     ''            text-decoration: underline; \<newline>'' @
     ''        }\<newline>'' @
     ''        footer { \<newline>'' @
     ''            text-align: center; \<newline>'' @
     ''            margin-top: 40px; \<newline>'' @
     ''            padding-top: 20px; \<newline>'' @
     ''            border-top: 1px solid #ddd; \<newline>'' @
     ''            font-size: 0.9rem; \<newline>'' @
     ''            color: #888; \<newline>'' @
     ''        }\<newline>'' @
     ''    </style>\<newline>'' @
     ''</head>\<newline>'' @
     ''<body>\<newline>'' @
     ''    <header>\<newline>'' @
     ''        <h1>r/''\<close>

definition html_head_c :: string where
  \<open>html_head_c =
     '' Narrated</h1>\<newline>'' @
     ''        <p>Latest posts with text-to-speech audio. Generated automatically.</p>\<newline>'' @
     ''    </header>\<newline>''\<close>

definition html_head :: pystr where
  "html_head =
     ascii html_head_a @ TARGET_SUBREDDIT @ ascii html_head_b @ TARGET_SUBREDDIT
     @ ascii html_head_c"

text \<open>Line 276.\<close>

definition no_posts_notice :: pystr where
  \<open>no_posts_notice = ascii ''<p>No new posts found matching criteria in this run.</p>''\<close>

text \<open>
  The clause \<open>except (ValueError, TypeError)\<close> of line 288; \<open>JSONDecodeError\<close> and
  \<open>UnicodeDecodeError\<close> are subclasses of \<open>ValueError\<close>.
\<close>

definition date_catches :: "error \<Rightarrow> bool" where
  "date_catches e \<longleftrightarrow>
     e = ValueError \<or> e = TypeError \<or> e = JSONDecodeError \<or> e = UnicodeDecodeError"

text \<open>Lines 283 to 289: the date of a post as text, or the exception that is not caught.\<close>

definition date_str :: "html_env \<Rightarrow> post \<Rightarrow> error + pystr" where
  "date_str env p =
     (case post_date p of
        None \<Rightarrow> Inr []
      | Some t \<Rightarrow>
          (case fromtimestamp env t of
             Inr d \<Rightarrow> Inr (strftime_minutes d)
           | Inl e \<Rightarrow> if date_catches e then Inr (ascii ''Unknown date'') else Inl e))"

text \<open>The conditional expression of line 303.\<close>

definition url_link :: "post \<Rightarrow> pystr" where
  \<open>url_link p =
     (case post_url p of
        Some u \<Rightarrow>
          ascii '' | <a href="'' @ u
          @ ascii ''" target="_blank" rel="noopener noreferrer">Original Post</a>''
      | None \<Rightarrow> [])\<close>

text \<open>The block of one post, lines 291 to 306, with the text of its date.\<close>

definition post_block :: "pystr \<Rightarrow> post \<Rightarrow> pystr" where
  \<open>post_block date p =
     ascii (''\<newline>'' @
            ''    <div class="post" id="post-'') @ post_id p @ ascii (''">\<newline>'' @
            ''        <h2>'') @ post_title p @ ascii (''</h2>\<newline>'' @
            ''        <audio controls src="'') @ AUDIO_DIR @ ascii ''/'' @ audio_file p
     @ ascii (''">\<newline>'' @
            ''            Your browser does not support the audio element.\<newline>'' @
            ''        </audio>\<newline>'' @
            ''        <details>\<newline>'' @
            ''            <summary>Show/Hide Text</summary>\<newline>'' @
            ''            <p>'') @ post_text p @ ascii (''</p>\<newline>'' @
            ''        </details>\<newline>'' @
            ''        <div class="meta">\<newline>'' @
            ''            Posted: '') @ date @ ascii (''\<newline>'' @
            ''            '') @ url_link p @ ascii (''\<newline>'' @
            ''        </div>\<newline>'' @
            ''    </div>\<newline>'')\<close>

text \<open>The footer, lines 310 to 317.\<close>

definition html_foot :: "html_env \<Rightarrow> pystr" where
  \<open>html_foot env =
     ascii (''\<newline>'' @
            ''    <footer>\<newline>'' @
            ''        <p>Last updated: '') @ strftime_seconds (now env) @ ascii (''</p>\<newline>'' @
            ''        <p>Content sourced from <a href="https://www.reddit.com/r/'')
     @ TARGET_SUBREDDIT @ ascii ''" target="_blank">r/'' @ TARGET_SUBREDDIT
     @ ascii (''</a></p>\<newline>'' @
            ''    </footer>\<newline>'' @
            ''</body>\<newline>'' @
            ''</html>\<newline>'')\<close>

subsection \<open>generate_html\<close>

text \<open>The key of the sort of line 279: \<open>x.get('date', 0)\<close>.\<close>

definition date_key :: "post \<Rightarrow> real" where
  "date_key p = (case post_date p of None \<Rightarrow> 0 | Some t \<Rightarrow> t)"

text \<open>
  \<open>posts_data.sort(key=..., reverse=True)\<close>: a stable sort by descending key, so posts
  with equal keys keep their order. It is the stable ascending sort by the negated key.
\<close>

definition sort_newest_first :: "post list \<Rightarrow> post list" where
  "sort_newest_first ps = sort_key (\<lambda>p. - date_key p) ps"

text \<open>
  The loop of lines 281 to 306 over the sorted posts: the blocks it adds to the document,
  or the exception of line 286 that leaves it.
\<close>

fun post_blocks :: "html_env \<Rightarrow> post list \<Rightarrow> error + pystr" where
  "post_blocks env [] = Inr []"
| "post_blocks env (p # ps) =
     (case date_str env p of
        Inl e \<Rightarrow> Inl e
      | Inr date \<Rightarrow>
          (case post_blocks env ps of
             Inl e \<Rightarrow> Inl e
           | Inr blocks \<Rightarrow> Inr (post_block date p @ blocks)))"

text \<open>The string \<open>html_content\<close> when line 319 is reached, if it is reached.\<close>

definition html_content :: "html_env \<Rightarrow> post list \<Rightarrow> error + pystr" where
  "html_content env posts =
     (case (if posts = [] then Inr no_posts_notice
            else post_blocks env (sort_newest_first posts)) of
        Inl e \<Rightarrow> Inl e
      | Inr body \<Rightarrow> Inr (html_head @ body @ html_foot env))"

text \<open>
  Lines 319 to 326: the document is written and the function returns \<open>True\<close>, or the write
  raises an \<open>IOError\<close> and it returns \<open>False\<close>. The second component is the document written
  to \<open>index.html\<close>, if any. An exception of line 286 leaves the function.
\<close>

definition generate_html :: "html_env \<Rightarrow> post list \<Rightarrow> error + (bool \<times> pystr option)" where
  "generate_html env posts =
     (case html_content env posts of
        Inl e \<Rightarrow> Inl e
      | Inr doc \<Rightarrow> Inr (if html_writable env then (True, Some doc) else (False, None)))"



section \<open>Example inputs\<close>

text \<open>
  The scenario of the specification: the identifier \<open>abc123\<close> is already in the set, and
  the forum lists a submission \<open>abc123\<close> and a submission \<open>def456\<close> with a body of 60
  characters, not pinned, a self post.
\<close>

definition example_known :: submission where
  "example_known =
     \<lparr>submission_id = ascii ''abc123'', title = ascii ''An older story'',
      selftext = replicate 80 (of_char CHR ''y''), is_self = True, stickied = False,
      created_utc = 1699990000, permalink = ascii ''/r/stories/comments/abc123/''\<rparr>"

definition example_submission :: submission where
  "example_submission =
     \<lparr>submission_id = ascii ''def456'', title = ascii ''  My <b>story</b>!  '',
      selftext = replicate 60 (of_char CHR ''x''), is_self = True, stickied = False,
      created_utc = 1700000000, permalink = ascii ''/r/stories/comments/def456/''\<rparr>"

definition example_reddit :: reddit where
  "example_reddit = \<lparr>ranking = [example_known, example_submission], raises_after = None\<rparr>"

definition empty_world :: world where
  "empty_world = \<lparr>existing_paths = {}, tts_calls = [], audio_dir = Creatable\<rparr>"

definition example_run :: run where
  "example_run = \<lparr>posts_data = [], processed_ids = {ascii ''abc123''}, run_world = empty_world\<rparr>"

text \<open>The same state when the audio file of \<open>def456\<close> is already on disk.\<close>

definition cached_run :: run where
  "cached_run =
     example_run\<lparr>run_world :=
       create_file (audio_path example_submission) (empty_world\<lparr>audio_dir := Directory\<rparr>)\<rparr>"

text \<open>A world where a regular file has the name of the audio directory.\<close>

definition blocked_world :: world where
  "blocked_world = \<lparr>existing_paths = {}, tts_calls = [], audio_dir = Blocked\<rparr>"

text \<open>A synthesis library that is down, and one that works.\<close>

definition always_fails :: gtts where
  "always_fails n text filepath = Failed False"

definition always_saves :: gtts where
  "always_saves n text filepath = Saved"

text \<open>
  Two accepted posts, the older one first in the list, and an environment for the renderer:
  a clock, and a conversion of timestamps that fails.
\<close>

definition older_post :: post where
  "older_post =
     \<lparr>post_id = ascii ''abc123'', post_title = ascii ''An older story'',
      post_text = replicate 80 (of_char CHR ''y''), audio_file = ascii ''abc123_An_older_story.mp3'',
      post_date = Some 1699990000, post_url = None\<rparr>"

definition newer_post :: post where
  "newer_post =
     \<lparr>post_id = ascii ''def456'', post_title = ascii ''My <b>story</b>!'',
      post_text = ascii ''<script>alert(1)</script> & more'',
      audio_file = ascii ''def456_My_b_story_b.mp3'',
      post_date = Some 1700000000, post_url = None\<rparr>"

definition example_env :: html_env where
  "example_env =
     \<lparr>fromtimestamp = (\<lambda>t. Inl ValueError),
      now = \<lparr>year = 2024, month = 1, day = 2, hour = 3, minute = 4, second = 5\<rparr>,
      html_writable = True\<rparr>"

section \<open>Properties of sanitize_filename\<close>

lemma collapse_underscores_Nil_iff: "collapse_underscores s = [] \<longleftrightarrow> s = []"
  by (induction s rule: collapse_underscores.induct) auto

lemma hd_collapse_underscores: "hd (collapse_underscores s) = hd s"
  by (induction s rule: collapse_underscores.induct) auto

lemma set_collapse_underscores: "set (collapse_underscores s) \<subseteq> set s"
  by (induction s rule: collapse_underscores.induct) auto

lemma sublist_pair_Cons:
  "sublist [a, b] (c # s) \<longleftrightarrow> (c = a \<and> s \<noteq> [] \<and> hd s = b) \<or> sublist [a, b] s"
  by (cases s) (auto simp: sublist_Cons_right)

lemma collapse_no_double: "no_double_underscore (collapse_underscores s)"
  unfolding no_double_underscore_def
proof (induction s rule: collapse_underscores.induct)
  case 1
  then show ?case by simp
next
  case (2 c)
  then show ?case by (simp add: sublist_pair_Cons)
next
  case (3 c d cs)
  show ?case
  proof (cases "c = underscore \<and> d = underscore")
    case True
    with 3 show ?thesis by simp
  next
    case False
    have ne: "collapse_underscores (d # cs) \<noteq> []"
      by (simp add: collapse_underscores_Nil_iff)
    have hd: "hd (collapse_underscores (d # cs)) = d"
      using hd_collapse_underscores[of "d # cs"] by simp
    from False 3 have "\<not> sublist [underscore, underscore] (collapse_underscores (d # cs))"
      by simp
    moreover from False
    have "collapse_underscores (c # d # cs) = c # collapse_underscores (d # cs)"
      by simp
    ultimately show ?thesis
      using False ne hd by (simp only: sublist_pair_Cons) blast
  qed
qed

lemma sublist_strip_underscores: "sublist (strip_underscores s) s"
proof -
  have "suffix (dropWhile (\<lambda>c. c = underscore) s) s"
    by (rule suffix_dropWhile)
  moreover have "prefix (strip_underscores s) (dropWhile (\<lambda>c. c = underscore) s)"
    unfolding strip_underscores_def
    by (metis suffix_dropWhile suffix_to_prefix rev_rev_ident)
  ultimately show ?thesis
    by (meson prefix_imp_sublist suffix_imp_sublist sublist_order.order_trans)
qed

lemma dropWhile_snoc_keep: "\<not> P x \<Longrightarrow> dropWhile P (ys @ [x]) = dropWhile P ys @ [x]"
  by (induction ys) auto

lemma strip_not_starts: "\<not> starts_with_underscore (strip_underscores s)"
proof (cases "dropWhile (\<lambda>c. c = underscore) s")
  case Nil
  have "strip_underscores s = []" unfolding strip_underscores_def Nil by simp
  then show ?thesis by (simp add: starts_with_underscore_def)
next
  case (Cons x xs)
  have x: "x \<noteq> underscore"
    using hd_dropWhile[of "\<lambda>c. c = underscore" s] Cons by simp
  then have "dropWhile (\<lambda>c. c = underscore) (rev xs @ [x])
               = dropWhile (\<lambda>c. c = underscore) (rev xs) @ [x]"
    by (rule dropWhile_snoc_keep)
  then have "strip_underscores s = x # rev (dropWhile (\<lambda>c. c = underscore) (rev xs))"
    unfolding strip_underscores_def Cons by simp
  with x show ?thesis by (simp add: starts_with_underscore_def)
qed

text \<open>
  What \<open>sanitize_filename\<close> guarantees for every input: the character class, no run of
  two underscores, no leading underscore, and the length bound.
\<close>

lemma sanitize_filename_shape:
  "set (sanitize_filename name) \<subseteq> {c. is_filename_char c}
   \<and> no_double_underscore (sanitize_filename name)
   \<and> \<not> starts_with_underscore (sanitize_filename name)
   \<and> length (sanitize_filename name) \<le> 100"
proof -
  let ?r = "replace_invalid name"
  let ?c = "collapse_underscores ?r"
  let ?s = "strip_underscores ?c"
  have sub: "sublist (sanitize_filename name) ?c"
    unfolding sanitize_filename_def
    by (meson take_is_prefix prefix_imp_sublist sublist_strip_underscores sublist_order.order_trans)
  have "set ?r \<subseteq> {c. is_filename_char c}"
    by (auto simp: replace_invalid_def is_filename_char_def underscore_def)
  then have 1: "set (sanitize_filename name) \<subseteq> {c. is_filename_char c}"
    using set_collapse_underscores[of ?r] set_mono_sublist[OF sub] by blast
  have 2: "no_double_underscore (sanitize_filename name)"
    using collapse_no_double[of ?r] sub
    unfolding no_double_underscore_def by (meson sublist_order.order_trans)
  have 3: "\<not> starts_with_underscore (sanitize_filename name)"
    using strip_not_starts[of ?c]
    by (cases ?s) (auto simp: sanitize_filename_def starts_with_underscore_def)
  have 4: "length (sanitize_filename name) \<le> 100"
    by (simp add: sanitize_filename_def)
  from 1 2 3 4 show ?thesis by blast
qed

text \<open>
  Claim C1 says that for every input the output of \<open>sanitize_filename\<close> matches
  \<open>[A-Za-z0-9_.-]*\<close>, has no run of two or more underscores, neither starts nor ends
  with an underscore, and has length at most 100. The function strips the underscores
  before it truncates, so the cut at 100 characters can expose an underscore again: for
  the title made of 99 letters \<open>a\<close>, a space and the letter \<open>b\<close> the result is the
  99 letters followed by an underscore.
\<close>

theorem sanitize_filename_trailing_underscore:
  "sanitize_filename (ascii (replicate 99 CHR ''a'' @ '' b''))
     = ascii (replicate 99 CHR ''a'' @ ''_'')
   \<and> ends_with_underscore (sanitize_filename (ascii (replicate 99 CHR ''a'' @ '' b'')))"
  by code_simp

section \<open>Properties of the deduplication store\<close>

text \<open>The states of the file that the function handles.\<close>

lemma load_processed_posts_handled:
  "load_processed_posts Absent = Inr {}"
  "load_processed_posts Unreadable = Inr {}"
  "load_processed_posts Malformed = Inr {}"
  by (simp_all add: load_processed_posts_def os_path_exists_def load_catches_def)

lemma those_map_hashable_JStr: "those (map (hashable \<circ> JStr) xs) = Some (map KStr xs)"
  by (induction xs) simp_all

lemma load_processed_posts_strings:
  "load_processed_posts (Document (JArr (map JStr xs))) = Inr (KStr ` set xs)"
  by (simp add: load_processed_posts_def os_path_exists_def those_map_hashable_JStr)

text \<open>What is read back from the escapes of one character, followed by more text.\<close>

lemma scanstring_Escape_single:
  assumes "\<not> (high_surrogate u \<and> us \<noteq> [] \<and> (\<exists>v. hd us = Escape v \<and> low_surrogate v))"
  shows "scanstring (Escape u # us) = u # scanstring us"
proof (cases us)
  case Nil
  then show ?thesis by simp
next
  case (Cons i rest)
  with assms show ?thesis by (cases i) auto
qed

lemma hd_encode_basestring_ascii:
  assumes "hd (encode_basestring_ascii (d # s)) = Escape v" "low_surrogate v"
  shows "low_surrogate d"
  using assms
  by (auto simp add: encode_basestring_ascii_def encode_char_def low_surrogate_def
        split: if_splits)

lemma encode_basestring_ascii_Nil_iff: "encode_basestring_ascii s = [] \<longleftrightarrow> s = []"
  by (cases s) (simp_all add: encode_basestring_ascii_def encode_char_def)

lemma scanstring_encode_Cons:
  assumes c: "c < 1114112"
    and pair: "\<not> (high_surrogate c \<and> s \<noteq> [] \<and> low_surrogate (hd s))"
  shows "scanstring (encode_basestring_ascii (c # s)) = c # scanstring (encode_basestring_ascii s)"
proof -
  let ?rest = "encode_basestring_ascii s"
  have unfold: "encode_basestring_ascii (c # s) = encode_char c @ ?rest"
    by (simp add: encode_basestring_ascii_def)
  let ?plain = "(32 \<le> c \<and> c \<le> 126) \<or> c \<in> {8, 9, 10, 12, 13}"
  consider "?plain" | "\<not> ?plain" "c < 65536" | "65536 \<le> c" by fastforce
  then show ?thesis
  proof cases
    case 1
    then show ?thesis by (simp add: unfold encode_char_def)
  next
    case 2
    have "\<not> (high_surrogate c \<and> ?rest \<noteq> [] \<and> (\<exists>v. hd ?rest = Escape v \<and> low_surrogate v))"
    proof
      assume h: "high_surrogate c \<and> ?rest \<noteq> [] \<and> (\<exists>v. hd ?rest = Escape v \<and> low_surrogate v)"
      then obtain d s' where s: "s = d # s'"
        by (cases s) (simp_all add: encode_basestring_ascii_def)
      from h s have "low_surrogate d" using hd_encode_basestring_ascii by blast
      with h s pair show False by simp
    qed
    then have "scanstring (Escape c # ?rest) = c # scanstring ?rest"
      by (rule scanstring_Escape_single)
    with 2 show ?thesis by (simp add: unfold encode_char_def)
  next
    case 3
    define n where "n = c - 65536"
    have n: "n < 1048576" "c = 65536 + n" using 3 c by (simp_all add: n_def)
    have hi: "(n div 1024) mod 1024 = n div 1024" using n(1) by simp
    have join: "(n div 1024) * 1024 + n mod 1024 = n" by simp
    have range: "n div 1024 \<le> 1023" "n mod 1024 \<le> 1023" using n(1) by simp_all
    have enc: "encode_char c = [Escape (55296 + n div 1024), Escape (56320 + n mod 1024)]"
      using 3 hi by (simp add: encode_char_def n_def)
    have hs: "high_surrogate (55296 + n div 1024)" "low_surrogate (56320 + n mod 1024)"
      using range by (simp_all add: high_surrogate_def low_surrogate_def)
    have val: "65536 + (n div 1024 * 1024 + n mod 1024) = c"
      using n(2) join by simp
    have "scanstring ([Escape (55296 + n div 1024), Escape (56320 + n mod 1024)] @ ?rest)
            = (65536 + (n div 1024 * 1024 + n mod 1024)) # scanstring ?rest"
      using hs by simp
    then show ?thesis unfolding unfold enc val .
  qed
qed

lemma scanstring_encode_basestring_ascii:
  "is_str s \<Longrightarrow> no_surrogate_pair s \<Longrightarrow> scanstring (encode_basestring_ascii s) = s"
proof (induction s rule: no_surrogate_pair.induct)
  case 1
  then show ?case by (simp add: encode_basestring_ascii_def)
next
  case (2 c)
  then have "scanstring (encode_basestring_ascii (c # [])) = c # scanstring (encode_basestring_ascii [])"
    by (intro scanstring_encode_Cons) (simp_all add: is_str_def)
  then show ?case by (simp add: encode_basestring_ascii_def)
next
  case (3 c d s)
  then have "scanstring (encode_basestring_ascii (c # d # s))
               = c # scanstring (encode_basestring_ascii (d # s))"
    by (intro scanstring_encode_Cons) (simp_all add: is_str_def)
  with 3 show ?case by (simp add: is_str_def)
qed

lemma json_dump_load_strings:
  assumes "list_all (\<lambda>s. is_str s \<and> no_surrogate_pair s) processed_list"
  shows "json_dump_load processed_list = JArr (map JStr processed_list)"
  using assms
  by (induction processed_list) (simp_all add: json_dump_load_def scanstring_encode_basestring_ascii)

text \<open>A failed write: the \<open>IOError\<close> is caught, and the next load sees the old file or none.\<close>

lemma load_after_failed_save:
  "load_processed_posts (save_processed_posts OpenFails processed_list f) = load_processed_posts f"
  "load_processed_posts (save_processed_posts WriteFails processed_list f) = Inr {}"
  by (simp_all add: save_processed_posts_def load_processed_posts_handled)

text \<open>
  Claim C2 says that \<open>load_processed_posts\<close> never raises, whatever the state of the
  file: it returns the empty set for a file that is absent or not the expected JSON, and
  the contents as a set of strings otherwise. The handler of line 55 catches
  \<open>JSONDecodeError\<close> and \<open>IOError\<close> only. A file that holds the JSON document \<open>5\<close> or
  \<open>null\<close> parses, and \<open>set\<close> of the value raises \<open>TypeError\<close>; so does an array with
  an array in it; and a file whose bytes are not text raises \<open>UnicodeDecodeError\<close>. These
  exceptions leave the function.
\<close>

theorem load_processed_posts_raises:
  "load_processed_posts (Document (JInt 5)) = Inl TypeError
   \<and> load_processed_posts (Document JNull) = Inl TypeError
   \<and> load_processed_posts (Document (JArr [JArr [JStr (ascii ''abc123'')]])) = Inl TypeError
   \<and> load_processed_posts Undecodable = Inl UnicodeDecodeError"
  by (simp add: load_processed_posts_def os_path_exists_def load_catches_def)

text \<open>
  Claim C7 says that for every set of string identifiers, saving the set with
  \<open>save_processed_posts\<close> and loading it back with \<open>load_processed_posts\<close> yields the
  same set. A Python string may hold a high surrogate followed by a low surrogate as two
  characters; \<open>json.dump\<close> writes them as two escapes, and \<open>json.load\<close> reads the two
  escapes as one character. The set of the one identifier made of the characters
  \<open>0xD83D\<close> and \<open>0xDE00\<close> is loaded back as the set of the identifier made of the
  one character \<open>0x1F600\<close>.
\<close>

theorem save_then_load_joins_surrogates:
  "load_processed_posts (save_processed_posts Written [[55357, 56832]] Absent)
     = Inr {KStr [128512]}
   \<and> load_processed_posts (save_processed_posts Written [[55357, 56832]] Absent)
     \<noteq> Inr (KStr ` {[55357, 56832]})"
  by (simp add: save_processed_posts_def json_dump_load_def encode_basestring_ascii_def
        encode_char_def high_surrogate_def low_surrogate_def load_processed_posts_def
        os_path_exists_def)

text \<open>
  Claim C7, amended: for every set of string identifiers in which no identifier holds a
  high surrogate followed at once by a low surrogate, saving the set with
  \<open>save_processed_posts\<close> and loading it back with \<open>load_processed_posts\<close> yields the
  same set, in whatever order the set was enumerated for the JSON array and whatever the
  file held before, when the write succeeds.
\<close>

theorem save_then_load_roundtrip:
  assumes "set processed_list = ids"
    and "\<forall>s\<in>ids. is_str s \<and> no_surrogate_pair s"
  shows "load_processed_posts (save_processed_posts Written processed_list f) = Inr (KStr ` ids)"
proof -
  from assms have "list_all (\<lambda>s. is_str s \<and> no_surrogate_pair s) processed_list"
    by (simp add: list_all_iff)
  then have "json_dump_load processed_list = JArr (map JStr processed_list)"
    by (rule json_dump_load_strings)
  with assms(1) show ?thesis
    by (simp add: save_processed_posts_def load_processed_posts_strings)
qed

text \<open>
  The identifiers \<open>def456\<close>, \<open>abc123\<close> and one made of a lone high surrogate and a
  character beyond \<open>0xFFFF\<close>, over a file that held \<open>abc123\<close>.
\<close>

theorem save_then_load_roundtrip_witness:
  "load_processed_posts
     (save_processed_posts Written [ascii ''def456'', ascii ''abc123'', [55357, 128512]]
        (Document (JArr [JStr (ascii ''abc123'')])))
   = Inr (KStr ` {ascii ''abc123'', ascii ''def456'', [55357, 128512]})"
proof -
  have h: "set [ascii ''def456'', ascii ''abc123'', [55357, 128512]]
             = {ascii ''abc123'', ascii ''def456'', [55357, 128512]}"
    by auto
  have ok: "\<forall>s\<in>{ascii ''abc123'', ascii ''def456'', [55357, 128512]}. is_str s \<and> no_surrogate_pair s"
    by (simp add: is_str_def ascii_def high_surrogate_def low_surrogate_def)
  show ?thesis
    using save_then_load_roundtrip [OF h ok] by simp
qed

section \<open>Properties of generate_tts\<close>

lemma tts_calls_record_call [simp]:
  "tts_calls (record_call text filepath w) = tts_calls w @ [(text, filepath)]"
  by (simp add: record_call_def)

lemma tts_calls_create_file [simp]: "tts_calls (create_file filepath w) = tts_calls w"
  by (simp add: create_file_def)

lemma tts_attempts_calls:
  "\<exists>n. n \<le> length attempts \<and> (attempts \<noteq> [] \<longrightarrow> 1 \<le> n)
       \<and> tts_calls (snd (tts_attempts g text filename filepath attempts w))
           = tts_calls w @ replicate n (text, filepath)"
proof (induction attempts arbitrary: w)
  case Nil
  then show ?case by simp
next
  case (Cons attempt rest)
  show ?case
  proof (cases "g (length (tts_calls w)) text filepath")
    case Saved
    then have "tts_calls (snd (tts_attempts g text filename filepath (attempt # rest) w))
                 = tts_calls w @ replicate 1 (text, filepath)"
      by simp
    then show ?thesis by (intro exI[of _ 1]) simp
  next
    case (Failed left)
    define w' where "w' = (if left then create_file filepath (record_call text filepath w)
                           else record_call text filepath w)"
    have calls: "tts_calls w' = tts_calls w @ [(text, filepath)]"
      by (simp add: w'_def)
    show ?thesis
    proof (cases "attempt = 2")
      case True
      with Failed have "tts_calls (snd (tts_attempts g text filename filepath (attempt # rest) w))
                          = tts_calls w @ replicate 1 (text, filepath)"
        by simp
      then show ?thesis by (intro exI[of _ 1]) simp
    next
      case False
      from Cons.IH[of w'] obtain n where n: "n \<le> length rest"
        and eq: "tts_calls (snd (tts_attempts g text filename filepath rest w'))
                   = tts_calls w' @ replicate n (text, filepath)"
        by blast
      from False Failed
      have "tts_attempts g text filename filepath (attempt # rest) w
              = tts_attempts g text filename filepath rest w'"
        by (simp add: w'_def Let_def)
      with eq calls
      have "tts_calls (snd (tts_attempts g text filename filepath (attempt # rest) w))
              = tts_calls w @ replicate (Suc n) (text, filepath)"
        by simp
      with n show ?thesis by (intro exI[of _ "Suc n"]) simp
    qed
  qed
qed

lemma tts_attempts_result:
  "fst (tts_attempts g text filename filepath attempts w) = None
   \<or> fst (tts_attempts g text filename filepath attempts w) = Some filename"
  by (induction attempts arbitrary: w) (auto split: tts_outcome.splits simp: Let_def)

lemma not_Saved_Failed: "x \<noteq> Saved \<Longrightarrow> \<exists>left. x = Failed left"
  by (cases x) auto

lemma tts_attempts_all_fail:
  assumes "g (length (tts_calls w)) text filepath \<noteq> Saved"
    and "g (length (tts_calls w) + 1) text filepath \<noteq> Saved"
    and "g (length (tts_calls w) + 2) text filepath \<noteq> Saved"
  shows "fst (tts_attempts g text filename filepath [0, 1, 2] w) = None"
proof -
  from assms(1) obtain b0 where b0: "g (length (tts_calls w)) text filepath = Failed b0"
    using not_Saved_Failed by blast
  from assms(2) obtain b1 where b1: "g (Suc (length (tts_calls w))) text filepath = Failed b1"
    using not_Saved_Failed by auto
  from assms(3) obtain b2 where b2: "g (Suc (Suc (length (tts_calls w)))) text filepath = Failed b2"
    using not_Saved_Failed by (metis add_2_eq_Suc')
  show ?thesis by (simp add: b0 b1 b2 Let_def)
qed

text \<open>The call of line 78 records no call and touches no audio file.\<close>

lemma mkdir_cases:
  "(audio_dir w = Blocked \<and> mkdir w = Inl OSError)
   \<or> (audio_dir w \<noteq> Blocked
       \<and> (\<exists>w1. mkdir w = Inr w1 \<and> tts_calls w1 = tts_calls w
                 \<and> existing_paths w1 = existing_paths w))"
  by (cases "audio_dir w") (simp_all add: mkdir_def)

lemma generate_tts_blocked:
  "audio_dir w = Blocked \<Longrightarrow> generate_tts g text filename w = Inl OSError"
  by (simp add: generate_tts_def mkdir_def)

lemma generate_tts_returns:
  assumes "audio_dir w \<noteq> Blocked"
  shows "\<exists>a w' n. generate_tts g text filename w = Inr (a, w')
           \<and> (a = None \<or> a = Some filename) \<and> 1 \<le> n \<and> n \<le> 3
           \<and> tts_calls w' = tts_calls w @ replicate n (limit_text text, os_path_join AUDIO_DIR filename)"
proof -
  from assms mkdir_cases[of w] obtain w1 where w1: "mkdir w = Inr w1" "tts_calls w1 = tts_calls w"
    by auto
  let ?res = "tts_attempts g (limit_text text) filename (os_path_join AUDIO_DIR filename) [0, 1, 2] w1"
  have gen: "generate_tts g text filename w = Inr (fst ?res, snd ?res)"
    by (simp add: generate_tts_def w1(1))
  from tts_attempts_calls[of "[0, 1, 2]" g "limit_text text" filename
         "os_path_join AUDIO_DIR filename" w1]
  obtain n where n: "n \<le> 3" "1 \<le> n"
    "tts_calls (snd ?res) = tts_calls w1 @ replicate n (limit_text text, os_path_join AUDIO_DIR filename)"
    by auto
  from tts_attempts_result[of g "limit_text text" filename "os_path_join AUDIO_DIR filename" "[0, 1, 2]" w1]
  have "fst ?res = None \<or> fst ?res = Some filename" .
  with gen n w1(2) show ?thesis by (intro exI[of _ "fst ?res"] exI[of _ "snd ?res"] exI[of _ n]) simp
qed

lemma generate_tts_Inr:
  assumes "generate_tts g text filename w = Inr (a, w')"
  shows "(a = None \<or> a = Some filename)
         \<and> (\<exists>n. 1 \<le> n \<and> n \<le> 3
               \<and> tts_calls w' = tts_calls w @ replicate n (limit_text text, os_path_join AUDIO_DIR filename))"
proof -
  have "audio_dir w \<noteq> Blocked"
    using assms generate_tts_blocked[of w g "text" filename] by auto
  from generate_tts_returns[OF this, of g "text" filename] assms show ?thesis by auto
qed

lemma generate_tts_all_fail:
  assumes "g (length (tts_calls w)) (limit_text text) (os_path_join AUDIO_DIR filename) \<noteq> Saved"
    and "g (length (tts_calls w) + 1) (limit_text text) (os_path_join AUDIO_DIR filename) \<noteq> Saved"
    and "g (length (tts_calls w) + 2) (limit_text text) (os_path_join AUDIO_DIR filename) \<noteq> Saved"
    and "generate_tts g text filename w = Inr (a, w')"
  shows "a = None"
proof -
  from assms(4) mkdir_cases[of w] obtain w1 where w1: "mkdir w = Inr w1" "tts_calls w1 = tts_calls w"
    by (auto simp add: generate_tts_def)
  from assms(1-3) have "fst (tts_attempts g (limit_text text) filename
                          (os_path_join AUDIO_DIR filename) [0, 1, 2] w1) = None"
    by (intro tts_attempts_all_fail) (simp_all add: w1(2))
  with assms(4) w1(1) show ?thesis by (auto simp add: generate_tts_def)
qed

text \<open>
  Claim C3: when the audio directory is there or can be created, \<open>generate_tts\<close> returns
  and calls the synthesis library at least once and at most three times, every time with
  the same text and path. For a text of more than 5000 characters that text is the first
  5000 characters followed by the suffix \<open>... [Content truncated due to length]\<close>; a text
  of at most 5000 characters is passed unchanged. When the directory cannot be created,
  the \<open>OSError\<close> of line 78 leaves the function and nothing is synthesized.
\<close>

theorem generate_tts_truncates:
  "(audio_dir w \<noteq> Blocked \<longrightarrow>
      (\<exists>a w' n. generate_tts g text filename w = Inr (a, w') \<and> 1 \<le> n \<and> n \<le> 3
         \<and> tts_calls w' = tts_calls w @ replicate n
               (if 5000 < length text
                then take 5000 text @ ascii ''... [Content truncated due to length]''
                else text,
                os_path_join AUDIO_DIR filename)))
   \<and> (audio_dir w = Blocked \<longrightarrow> generate_tts g text filename w = Inl OSError)"
proof (intro conjI impI)
  assume ok: "audio_dir w \<noteq> Blocked"
  have "limit_text text
          = (if 5000 < length text
             then take 5000 text @ ascii ''... [Content truncated due to length]''
             else text)"
    unfolding limit_text_def MAX_TEXT_LENGTH_def truncation_suffix_def by (rule refl)
  with generate_tts_returns[OF ok, of g "text" filename]
  show "\<exists>a w' n. generate_tts g text filename w = Inr (a, w') \<and> 1 \<le> n \<and> n \<le> 3
         \<and> tts_calls w' = tts_calls w @ replicate n
               (if 5000 < length text
                then take 5000 text @ ascii ''... [Content truncated due to length]''
                else text,
                os_path_join AUDIO_DIR filename)"
    by (simp only:) blast
next
  assume "audio_dir w = Blocked"
  then show "generate_tts g text filename w = Inl OSError" by (rule generate_tts_blocked)
qed

section \<open>Properties of the pipeline\<close>

lemma audio_filename_not_empty: "audio_filename s \<noteq> []"
  by (simp add: audio_filename_def ascii_def)

lemma try_submission_skipped:
  "skipped (processed_ids r) s \<Longrightarrow> try_submission g s r = Inr r"
  by (simp add: try_submission_def)

lemma try_submission_existing:
  "\<not> skipped (processed_ids r) s \<Longrightarrow> audio_path s \<in> existing_paths (run_world r)
   \<Longrightarrow> try_submission g s r = Inr (accept s (audio_filename s) r)"
  by (simp add: try_submission_def)

lemma try_submission_synthesized:
  assumes "\<not> skipped (processed_ids r) s" and "audio_path s \<notin> existing_paths (run_world r)"
  shows "try_submission g s r =
           (case generate_tts g (full_text s) (audio_filename s) (run_world r) of
              Inl e \<Rightarrow> Inl e
            | Inr (a, w) \<Rightarrow>
                Inr (if a = None then r\<lparr>run_world := w\<rparr>
                     else accept s (audio_filename s) (r\<lparr>run_world := w\<rparr>)))"
proof (cases "generate_tts g (full_text s) (audio_filename s) (run_world r)")
  case (Inl e)
  with assms show ?thesis by (simp add: try_submission_def)
next
  case (Inr res)
  obtain a w where res: "res = (a, w)" by (cases res)
  from generate_tts_Inr[of g "full_text s" "audio_filename s" "run_world r" a w] Inr res
  have "a = None \<or> a = Some (audio_filename s)" by simp
  with assms Inr res show ?thesis
    by (auto simp: try_submission_def audio_filename_not_empty)
qed

lemma process_submission_skipped:
  "skipped (processed_ids r) s \<Longrightarrow> process_submission g s r = r"
  by (simp add: process_submission_def try_submission_skipped)

lemma process_submission_existing:
  "\<not> skipped (processed_ids r) s \<Longrightarrow> audio_path s \<in> existing_paths (run_world r)
   \<Longrightarrow> process_submission g s r = accept s (audio_filename s) r"
  by (simp add: process_submission_def try_submission_existing)

lemma process_submission_synthesized:
  assumes "\<not> skipped (processed_ids r) s" and "audio_path s \<notin> existing_paths (run_world r)"
  shows "process_submission g s r =
           (case generate_tts g (full_text s) (audio_filename s) (run_world r) of
              Inl e \<Rightarrow> r
            | Inr (a, w) \<Rightarrow>
                if a = None then r\<lparr>run_world := w\<rparr>
                else accept s (audio_filename s) (r\<lparr>run_world := w\<rparr>))"
  unfolding process_submission_def try_submission_synthesized[OF assms]
  by (simp split: sum.splits prod.splits)

lemma process_submission_shape:
  "(posts_data (process_submission g s r) = posts_data r
      \<and> processed_ids (process_submission g s r) = processed_ids r)
   \<or> (\<not> skipped (processed_ids r) s
      \<and> posts_data (process_submission g s r) = posts_data r @ [new_post s (audio_filename s)]
      \<and> processed_ids (process_submission g s r) = insert (submission_id s) (processed_ids r))"
proof (cases "skipped (processed_ids r) s")
  case True
  then show ?thesis by (simp add: process_submission_skipped)
next
  case False
  show ?thesis
  proof (cases "audio_path s \<in> existing_paths (run_world r)")
    case True
    with False show ?thesis by (simp add: process_submission_existing accept_def)
  next
    case absent: False
    show ?thesis
      unfolding process_submission_synthesized[OF False absent]
      using False by (simp add: accept_def split: sum.splits prod.splits)
  qed
qed

lemma process_submission_calls:
  "\<exists>n\<le>3. tts_calls (run_world (process_submission g s r))
            = tts_calls (run_world r) @ replicate n (limit_text (full_text s), audio_path s)"
proof (cases "skipped (processed_ids r) s")
  case True
  then show ?thesis by (intro exI[of _ 0]) (simp add: process_submission_skipped)
next
  case False
  show ?thesis
  proof (cases "audio_path s \<in> existing_paths (run_world r)")
    case True
    with False show ?thesis
      by (intro exI[of _ 0]) (simp add: process_submission_existing accept_def)
  next
    case absent: False
    show ?thesis
    proof (cases "generate_tts g (full_text s) (audio_filename s) (run_world r)")
      case (Inl e)
      then show ?thesis
        unfolding process_submission_synthesized[OF False absent]
        by (intro exI[of _ 0]) simp
    next
      case (Inr res)
      obtain a w where res: "res = (a, w)" by (cases res)
      from generate_tts_Inr[of g "full_text s" "audio_filename s" "run_world r" a w] Inr res
      obtain n where "n \<le> 3"
        and "tts_calls w
               = tts_calls (run_world r) @ replicate n (limit_text (full_text s), audio_path s)"
        unfolding audio_path_def by auto
      with Inr res show ?thesis
        unfolding process_submission_synthesized[OF False absent]
        by (intro exI[of _ n]) (simp add: accept_def)
    qed
  qed
qed

text \<open>
  Claim C4: for a submission whose audio file does not exist yet, processing it calls the
  synthesis library at most three times; and when the three attempts fail, the
  submission is skipped: \<open>posts_data\<close> and \<open>processed_ids\<close> are what they were, so the
  identifier is not added to the set and no post is added to the list.
\<close>

theorem three_failed_attempts_skip:
  "audio_path s \<notin> existing_paths (run_world r) \<Longrightarrow>
     length (tts_calls (run_world (process_submission g s r)))
       \<le> length (tts_calls (run_world r)) + 3
     \<and> (g (length (tts_calls (run_world r))) (limit_text (full_text s)) (audio_path s) \<noteq> Saved
        \<and> g (length (tts_calls (run_world r)) + 1) (limit_text (full_text s)) (audio_path s) \<noteq> Saved
        \<and> g (length (tts_calls (run_world r)) + 2) (limit_text (full_text s)) (audio_path s) \<noteq> Saved
        \<longrightarrow> posts_data (process_submission g s r) = posts_data r
            \<and> processed_ids (process_submission g s r) = processed_ids r)"
proof (intro conjI impI)
  from process_submission_calls[of g s r]
  show "length (tts_calls (run_world (process_submission g s r)))
          \<le> length (tts_calls (run_world r)) + 3"
    by auto
next
  assume absent: "audio_path s \<notin> existing_paths (run_world r)"
  assume fails:
    "g (length (tts_calls (run_world r))) (limit_text (full_text s)) (audio_path s) \<noteq> Saved
     \<and> g (length (tts_calls (run_world r)) + 1) (limit_text (full_text s)) (audio_path s) \<noteq> Saved
     \<and> g (length (tts_calls (run_world r)) + 2) (limit_text (full_text s)) (audio_path s) \<noteq> Saved"
  have none: "a = None"
    if "generate_tts g (full_text s) (audio_filename s) (run_world r) = Inr (a, w)" for a w
    using fails that unfolding audio_path_def
    by (intro generate_tts_all_fail[of g "run_world r" "full_text s" "audio_filename s" a w]) simp_all
  have same: "posts_data (process_submission g s r) = posts_data r
              \<and> processed_ids (process_submission g s r) = processed_ids r"
  proof (cases "skipped (processed_ids r) s")
    case True
    then show ?thesis by (simp add: process_submission_skipped)
  next
    case False
    show ?thesis
      unfolding process_submission_synthesized[OF False absent]
      using none by (auto split: sum.splits prod.splits)
  qed
  from same show "posts_data (process_submission g s r) = posts_data r" by simp
  from same show "processed_ids (process_submission g s r) = processed_ids r" by simp
qed

text \<open>
  Claim C6: when the audio file of a submission already exists, processing the submission
  makes no call to the synthesis library and leaves the world as it is; and a submission
  that passes the filter is accepted with the existing file name as its audio file: its
  post is appended and its identifier is added to the set.
\<close>

theorem existing_audio_reused:
  "audio_path s \<in> existing_paths (run_world r) \<Longrightarrow>
     run_world (process_submission g s r) = run_world r
     \<and> tts_calls (run_world (process_submission g s r)) = tts_calls (run_world r)
     \<and> (\<not> skipped (processed_ids r) s \<longrightarrow>
          posts_data (process_submission g s r) = posts_data r @ [new_post s (audio_filename s)]
          \<and> audio_file (last (posts_data (process_submission g s r))) = audio_filename s
          \<and> processed_ids (process_submission g s r) = insert (submission_id s) (processed_ids r))"
  by (cases "skipped (processed_ids r) s")
     (simp_all add: process_submission_skipped process_submission_existing accept_def new_post_def)

lemma skipped_mono: "ids \<subseteq> ids' \<Longrightarrow> skipped ids s \<Longrightarrow> skipped ids' s"
  by (auto simp: skipped_def)

lemma process_submission_ids_mono: "processed_ids r \<subseteq> processed_ids (process_submission g s r)"
  using process_submission_shape[of g s r] by auto

text \<open>One turn of the loop: the body raises and the loop ends, or the loop goes on.\<close>

lemma process_all_Cons:
  "process_all g (s # ss) r = r
   \<or> process_all g (s # ss) r = process_all g ss (process_submission g s r)"
  by (cases "try_submission g s r") (simp_all add: process_submission_def)

lemma process_all_ids_mono: "processed_ids r \<subseteq> processed_ids (process_all g ss r)"
proof (induction ss arbitrary: r)
  case Nil
  then show ?case by simp
next
  case (Cons s ss)
  from Cons.IH[of "process_submission g s r"] process_submission_ids_mono[of r g s]
  have "processed_ids r \<subseteq> processed_ids (process_all g ss (process_submission g s r))"
    by auto
  with process_all_Cons[of g s ss r] show ?case by auto
qed

lemma process_all_posts_ids:
  "post_id ` set (posts_data r) \<subseteq> processed_ids r
   \<Longrightarrow> post_id ` set (posts_data (process_all g ss r)) \<subseteq> processed_ids (process_all g ss r)"
proof (induction ss arbitrary: r)
  case Nil
  then show ?case by simp
next
  case (Cons s ss)
  have "post_id ` set (posts_data (process_submission g s r))
          \<subseteq> processed_ids (process_submission g s r)"
    using process_submission_shape[of g s r] Cons.prems
    by (auto simp: new_post_def image_subset_iff)
  from Cons.IH[OF this]
  have ih: "post_id ` set (posts_data (process_all g ss (process_submission g s r)))
              \<subseteq> processed_ids (process_all g ss (process_submission g s r))" .
  from process_all_Cons[of g s ss r] show ?case
  proof
    assume e: "process_all g (s # ss) r = r"
    show ?thesis unfolding e using Cons.prems .
  next
    assume e: "process_all g (s # ss) r = process_all g ss (process_submission g s r)"
    show ?thesis unfolding e using ih .
  qed
qed

lemma process_all_posts_origin:
  "p \<in> set (posts_data (process_all g ss r))
   \<Longrightarrow> p \<in> set (posts_data r)
       \<or> (\<exists>s\<in>set ss. p = new_post s (audio_filename s) \<and> \<not> skipped (processed_ids r) s)"
proof (induction ss arbitrary: r)
  case Nil
  then show ?case by simp
next
  case (Cons s ss)
  let ?r = "process_submission g s r"
  from process_all_Cons[of g s ss r] Cons.prems
  consider "p \<in> set (posts_data r)" | "p \<in> set (posts_data (process_all g ss ?r))"
    by auto
  then show ?case
  proof cases
    case 1
    then show ?thesis by simp
  next
    case 2
    from Cons.IH[OF 2]
    consider "p \<in> set (posts_data ?r)"
      | t where "t \<in> set ss" "p = new_post t (audio_filename t)" "\<not> skipped (processed_ids ?r) t"
      by auto
    then show ?thesis
    proof cases
      case 1
      with process_submission_shape[of g s r] show ?thesis by auto
    next
      case 2
      from 2(3) skipped_mono[OF process_submission_ids_mono[of r g s], of t]
      have "\<not> skipped (processed_ids r) t" by blast
      with 2 show ?thesis by auto
    qed
  qed
qed


lemma set_hot: "set (hot rd limit) \<subseteq> set (take limit (ranking rd))"
proof (cases "raises_after rd")
  case None
  then show ?thesis by (simp add: hot_def)
next
  case (Some k)
  have "set (take (min k limit) (ranking rd)) \<subseteq> set (take limit (ranking rd))"
    by (rule set_take_subset_set_take) simp
  with Some show ?thesis by (simp add: hot_def)
qed

text \<open>
  Claim C5: every post that \<open>fetch_and_process_posts\<close> returns was built from one of the
  first ten submissions of the ranking whose identifier was not in the set given to the
  function, which is not stickied, is a self post, and has a body that is not empty and
  has at least 50 characters. So no returned post carries an identifier of the input set,
  and a submission that fails one of the five tests contributes no post.
\<close>

theorem filtered_submissions_not_accepted:
  "p \<in> set (posts_data (fetch_and_process_posts g rd ids w)) \<Longrightarrow>
     post_id p \<notin> ids
     \<and> (\<exists>s\<in>set (take 10 (ranking rd)).
           p = new_post s (audio_filename s)
           \<and> submission_id s \<notin> ids \<and> \<not> stickied s \<and> is_self s
           \<and> selftext s \<noteq> [] \<and> 50 \<le> length (selftext s))"
proof -
  assume "p \<in> set (posts_data (fetch_and_process_posts g rd ids w))"
  from process_all_posts_origin[OF this[unfolded fetch_and_process_posts_def]]
  obtain s where s: "s \<in> set (hot rd POST_LIMIT)" "p = new_post s (audio_filename s)"
    "\<not> skipped ids s"
    by auto
  from s(1) set_hot[of rd POST_LIMIT] have "s \<in> set (take 10 (ranking rd))"
    by (auto simp: POST_LIMIT_def)
  moreover from s(3) have "submission_id s \<notin> ids \<and> \<not> stickied s \<and> is_self s
      \<and> selftext s \<noteq> [] \<and> 50 \<le> length (selftext s)"
    by (auto simp: skipped_def MIN_TEXT_LENGTH_def)
  moreover from this s(2) have "post_id p \<notin> ids" by (simp add: new_post_def)
  ultimately show ?thesis using s(2) by blast
qed

text \<open>
  Claim C9: the set that \<open>fetch_and_process_posts\<close> returns contains the set it was given,
  and the identifier of every returned post is in the returned set.
\<close>

theorem processed_ids_only_grow:
  "ids \<subseteq> processed_ids (fetch_and_process_posts g rd ids w)
   \<and> post_id ` set (posts_data (fetch_and_process_posts g rd ids w))
       \<subseteq> processed_ids (fetch_and_process_posts g rd ids w)"
  unfolding fetch_and_process_posts_def
  using process_all_ids_mono[of "\<lparr>posts_data = [], processed_ids = ids, run_world = w\<rparr>" g "hot rd POST_LIMIT"]
        process_all_posts_ids[of "\<lparr>posts_data = [], processed_ids = ids, run_world = w\<rparr>" g "hot rd POST_LIMIT"]
  by simp

section \<open>The pipeline on the example\<close>

lemma example_known_skipped: "skipped {ascii ''abc123''} example_known"
  by (simp add: skipped_def example_known_def)

lemma example_submission_not_skipped: "\<not> skipped {ascii ''abc123''} example_submission"
  by (simp add: skipped_def example_submission_def ascii_def MIN_TEXT_LENGTH_def)

lemma fetch_example_posts:
  "posts_data (fetch_and_process_posts always_saves example_reddit {ascii ''abc123''} empty_world)
     = [new_post example_submission (audio_filename example_submission)]"
proof -
  let ?r = "\<lparr>posts_data = [], processed_ids = {ascii ''abc123''}, run_world = empty_world\<rparr>"
  have known: "try_submission always_saves example_known ?r = Inr ?r"
    by (rule try_submission_skipped) (simp add: example_known_skipped)
  have absent: "audio_path example_submission \<notin> existing_paths (run_world ?r)"
    by (simp add: empty_world_def)
  obtain w where "generate_tts always_saves (full_text example_submission)
                    (audio_filename example_submission) (run_world ?r)
                  = Inr (Some (audio_filename example_submission), w)"
    by (simp add: generate_tts_def mkdir_def empty_world_def always_saves_def)
  then have "try_submission always_saves example_submission ?r
               = Inr (accept example_submission (audio_filename example_submission)
                        (?r\<lparr>run_world := w\<rparr>))"
    using try_submission_synthesized[of ?r example_submission always_saves] absent
      example_submission_not_skipped
    by simp
  with known show ?thesis
    by (simp add: fetch_and_process_posts_def hot_def example_reddit_def POST_LIMIT_def accept_def)
qed

text \<open>
  A text of 5001 characters with a synthesis library that is down, in a world where the
  audio directory can be created and in one where it cannot.
\<close>

theorem generate_tts_truncates_witness:
  "(\<exists>a w' n. generate_tts always_fails (replicate 5001 120) (ascii ''def456.mp3'') empty_world
                 = Inr (a, w')
       \<and> 1 \<le> n \<and> n \<le> 3
       \<and> tts_calls w' = replicate n
             (replicate 5000 120 @ ascii ''... [Content truncated due to length]'',
              ascii ''audio/def456.mp3''))
   \<and> generate_tts always_fails (replicate 5001 120) (ascii ''def456.mp3'') blocked_world
       = Inl OSError"
proof -
  have ok: "audio_dir empty_world \<noteq> Blocked" and no: "audio_dir blocked_world = Blocked"
    by (simp_all add: empty_world_def blocked_world_def)
  have path: "os_path_join AUDIO_DIR (ascii ''def456.mp3'') = ascii ''audio/def456.mp3''"
    by (simp add: os_path_join_def AUDIO_DIR_def ascii_def)
  have calls: "tts_calls empty_world = []"
    by (simp add: empty_world_def)
  from generate_tts_truncates[of empty_world always_fails "replicate 5001 120" "ascii ''def456.mp3''"]
    generate_tts_truncates[of blocked_world always_fails "replicate 5001 120" "ascii ''def456.mp3''"]
    ok no
  show ?thesis by (simp add: path calls)
qed

text \<open>The submission \<open>def456\<close> with a synthesis library that is down: three calls, nothing accepted.\<close>

theorem three_failed_attempts_skip_witness:
  "audio_path example_submission \<notin> existing_paths (run_world example_run)
   \<and> length (tts_calls (run_world (process_submission always_fails example_submission example_run)))
       \<le> length (tts_calls (run_world example_run)) + 3
   \<and> posts_data (process_submission always_fails example_submission example_run)
       = posts_data example_run
   \<and> processed_ids (process_submission always_fails example_submission example_run)
       = processed_ids example_run"
proof -
  have absent: "audio_path example_submission \<notin> existing_paths (run_world example_run)"
    by (simp add: example_run_def empty_world_def)
  from three_failed_attempts_skip[OF absent, of always_fails] absent
  show ?thesis by (simp add: always_fails_def)
qed

text \<open>The submission \<open>def456\<close> when its audio file exists: accepted although the library is down.\<close>

theorem existing_audio_reused_witness:
  "audio_path example_submission \<in> existing_paths (run_world cached_run)
   \<and> \<not> skipped (processed_ids cached_run) example_submission
   \<and> tts_calls (run_world (process_submission always_fails example_submission cached_run)) = []
   \<and> posts_data (process_submission always_fails example_submission cached_run)
       = [new_post example_submission (audio_filename example_submission)]
   \<and> audio_file (last (posts_data (process_submission always_fails example_submission cached_run)))
       = audio_filename example_submission
   \<and> processed_ids (process_submission always_fails example_submission cached_run)
       = {ascii ''def456'', ascii ''abc123''}"
proof -
  have present: "audio_path example_submission \<in> existing_paths (run_world cached_run)"
    by (simp add: cached_run_def create_file_def)
  have passes: "\<not> skipped (processed_ids cached_run) example_submission"
    using example_submission_not_skipped by (simp add: cached_run_def example_run_def)
  have start: "tts_calls (run_world cached_run) = []" "posts_data cached_run = []"
    "processed_ids cached_run = {ascii ''abc123''}" "submission_id example_submission = ascii ''def456''"
    by (simp_all add: cached_run_def example_run_def create_file_def empty_world_def example_submission_def)
  from existing_audio_reused[OF present, of always_fails] present passes start
  show ?thesis by (simp add: new_post_def)
qed

text \<open>The run of the scenario: the one post returned comes from \<open>def456\<close>, not from \<open>abc123\<close>.\<close>

theorem filtered_submissions_not_accepted_witness:
  "new_post example_submission (audio_filename example_submission)
     \<in> set (posts_data (fetch_and_process_posts always_saves example_reddit {ascii ''abc123''} empty_world))
   \<and> post_id (new_post example_submission (audio_filename example_submission)) \<notin> {ascii ''abc123''}
   \<and> (\<exists>s\<in>set (take 10 (ranking example_reddit)).
         new_post example_submission (audio_filename example_submission) = new_post s (audio_filename s)
         \<and> submission_id s \<notin> {ascii ''abc123''} \<and> \<not> stickied s \<and> is_self s
         \<and> selftext s \<noteq> [] \<and> 50 \<le> length (selftext s))"
proof -
  have mem: "new_post example_submission (audio_filename example_submission)
     \<in> set (posts_data (fetch_and_process_posts always_saves example_reddit {ascii ''abc123''} empty_world))"
    by (simp add: fetch_example_posts)
  from filtered_submissions_not_accepted[OF mem] mem show ?thesis by blast
qed

text \<open>The run of the scenario: the returned set holds \<open>abc123\<close> and \<open>def456\<close>.\<close>

theorem processed_ids_only_grow_witness:
  "{ascii ''abc123''}
     \<subseteq> processed_ids (fetch_and_process_posts always_saves example_reddit {ascii ''abc123''} empty_world)
   \<and> ascii ''def456''
     \<in> processed_ids (fetch_and_process_posts always_saves example_reddit {ascii ''abc123''} empty_world)"
proof -
  have "post_id (new_post example_submission (audio_filename example_submission)) = ascii ''def456''"
    by (simp add: new_post_def example_submission_def)
  with processed_ids_only_grow[of "{ascii ''abc123''}" always_saves example_reddit empty_world]
  show ?thesis by (simp add: fetch_example_posts)
qed

section \<open>Properties of the page renderer\<close>


















text \<open>The block of a post holds its title and its text as they are.\<close>

lemma sublist_skip: "sublist x ys \<Longrightarrow> sublist x (zs @ ys)"
  by (auto simp add: sublist_def) (metis append.assoc)

lemma sublist_inner:
  assumes "a = a' @ x" "b = y @ b'"
  shows "sublist (x @ t @ y) (a @ t @ b @ rest)"
proof -
  have "a @ t @ b @ rest = a' @ (x @ t @ y) @ (b' @ rest)"
    using assms by simp
  then show ?thesis by (simp only: sublist_appendI)
qed

lemma post_block_title:
  "sublist (ascii ''<h2>'' @ post_title p @ ascii ''</h2>'') (post_block date p)"
  unfolding post_block_def
  apply (rule sublist_skip)
  apply (rule sublist_skip)
  apply (rule sublist_inner[where a' = "ascii (''\">\<newline>'' @ ''        '')"
           and b' = "ascii (''\<newline>'' @ ''        <audio controls src=\"'')"])
   apply (simp_all add: ascii_def)
  done

lemma post_block_text:
  "sublist (ascii ''<p>'' @ post_text p @ ascii ''</p>'') (post_block date p)"
  unfolding post_block_def
  apply (rule sublist_skip)
  apply (rule sublist_skip)
  apply (rule sublist_skip)
  apply (rule sublist_skip)
  apply (rule sublist_skip)
  apply (rule sublist_skip)
  apply (rule sublist_skip)
  apply (rule sublist_skip)
  apply (rule sublist_inner[where a' = "ascii (''\">\<newline>'' @
            ''            Your browser does not support the audio element.\<newline>'' @
            ''        </audio>\<newline>'' @
            ''        <details>\<newline>'' @
            ''            <summary>Show/Hide Text</summary>\<newline>'' @
            ''            '')"
           and b' = "ascii (''\<newline>'' @
            ''        </details>\<newline>'' @
            ''        <div class=\"meta\">\<newline>'' @
            ''            Posted: '')"])
   apply (simp_all add: ascii_def)
  done


lemma post_blocks_sublist:
  assumes "\<And>date. sublist x (post_block date p)"
  shows "post_blocks env ps = Inr blocks \<Longrightarrow> p \<in> set ps \<Longrightarrow> sublist x blocks"
proof (induction ps arbitrary: blocks)
  case Nil
  then show ?case by simp
next
  case (Cons q ps)
  from Cons.prems(1) obtain date rest where
    r: "post_blocks env ps = Inr rest" and b: "blocks = post_block date q @ rest"
    by (auto split: sum.splits)
  show ?case
  proof (cases "p = q")
    case True
    from assms[of date] obtain us vs where "post_block date p = us @ x @ vs"
      by (auto simp add: sublist_def)
    with True b have "blocks = us @ x @ (vs @ rest)" by simp
    then show ?thesis by (simp only: sublist_appendI)
  next
    case False
    with Cons.prems(2) have "p \<in> set ps" by simp
    from Cons.IH[OF r this] show ?thesis unfolding b by (rule sublist_skip)
  qed
qed

text \<open>The loop ends when every exception of \<open>fromtimestamp\<close> is one that line 288 catches.\<close>

lemma post_blocks_returns:
  "(\<And>p t e. p \<in> set ps \<Longrightarrow> post_date p = Some t \<Longrightarrow> fromtimestamp env t = Inl e
      \<Longrightarrow> date_catches e)
   \<Longrightarrow> \<exists>blocks. post_blocks env ps = Inr blocks"
proof (induction ps)
  case Nil
  then show ?case by simp
next
  case (Cons p ps)
  have "\<exists>date. date_str env p = Inr date"
  proof (cases "post_date p")
    case None
    then show ?thesis by (simp add: date_str_def)
  next
    case (Some t)
    show ?thesis
    proof (cases "fromtimestamp env t")
      case (Inl e)
      with Some Cons.prems[of p t e] show ?thesis by (simp add: date_str_def)
    next
      case (Inr d)
      with Some show ?thesis by (simp add: date_str_def)
    qed
  qed
  moreover have "\<exists>blocks. post_blocks env ps = Inr blocks"
    by (rule Cons.IH) (rule Cons.prems, simp_all)
  ultimately show ?case by auto
qed

lemma generate_html_Some:
  "generate_html env posts = Inr (ok, Some doc) \<longleftrightarrow>
     html_writable env \<and> ok \<and> html_content env posts = Inr doc"
  by (auto simp add: generate_html_def split: sum.splits)

lemma generate_html_returns:
  assumes "\<And>p t e. p \<in> set posts \<Longrightarrow> post_date p = Some t \<Longrightarrow> fromtimestamp env t = Inl e
             \<Longrightarrow> date_catches e"
  shows "\<exists>doc. generate_html env posts
           = Inr (if html_writable env then (True, Some doc) else (False, None))"
proof -
  have "\<exists>blocks. post_blocks env (sort_newest_first posts) = Inr blocks"
    by (rule post_blocks_returns) (rule assms, simp_all add: sort_newest_first_def)
  then have "\<exists>doc. html_content env posts = Inr doc"
    by (auto simp add: html_content_def)
  then show ?thesis by (auto simp add: generate_html_def)
qed


text \<open>
  Claim C10: for every post of the list given to \<open>generate_html\<close>, the document it
  writes holds the title of the post between \<open><h2>\<close> and \<open></h2>\<close> and its text between
  \<open><p>\<close> and \<open></p>\<close>, character for character: nothing is escaped, so markup in the title
  or the text stands in the page as markup.
\<close>

theorem generate_html_verbatim:
  assumes "generate_html env posts = Inr (ok, Some doc)" and "p \<in> set posts"
  shows "sublist (ascii ''<h2>'' @ post_title p @ ascii ''</h2>'') doc
         \<and> sublist (ascii ''<p>'' @ post_text p @ ascii ''</p>'') doc"
proof -
  from assms(2) have ne: "posts \<noteq> []" by auto
  from assms(1) have "html_content env posts = Inr doc" by (simp add: generate_html_Some)
  with ne obtain blocks where blocks: "post_blocks env (sort_newest_first posts) = Inr blocks"
    and doc: "doc = html_head @ blocks @ html_foot env"
    by (auto simp add: html_content_def split: sum.splits)
  from assms(2) have mem: "p \<in> set (sort_newest_first posts)"
    by (simp add: sort_newest_first_def)
  have "sublist (ascii ''<h2>'' @ post_title p @ ascii ''</h2>'') blocks"
    by (rule post_blocks_sublist[OF post_block_title blocks mem])
  moreover have "sublist (ascii ''<p>'' @ post_text p @ ascii ''</p>'') blocks"
    by (rule post_blocks_sublist[OF post_block_text blocks mem])
  ultimately show ?thesis
    unfolding doc by (auto simp add: sublist_append)
qed

section \<open>The page of the example\<close>



lemma example_page_written:
  "\<exists>doc. generate_html example_env [older_post, newer_post] = Inr (True, Some doc)"
proof -
  have "\<exists>doc. generate_html example_env [older_post, newer_post]
           = Inr (if html_writable example_env then (True, Some doc) else (False, None))"
    by (rule generate_html_returns) (simp_all add: example_env_def date_catches_def)
  then show ?thesis by (simp add: example_env_def)
qed


text \<open>The title and the text of the newer post, with their markup, in the page.\<close>

theorem generate_html_verbatim_witness:
  "\<exists>doc. generate_html example_env [older_post, newer_post] = Inr (True, Some doc)
     \<and> sublist (ascii ''<h2>My <b>story</b>!</h2>'') doc
     \<and> sublist (ascii ''<p><script>alert(1)</script> & more</p>'') doc"
proof -
  from example_page_written obtain doc where
    g: "generate_html example_env [older_post, newer_post] = Inr (True, Some doc)"
    by blast
  have p: "newer_post \<in> set [older_post, newer_post]" by simp
  have t: "ascii ''<h2>'' @ post_title newer_post @ ascii ''</h2>'' = ascii ''<h2>My <b>story</b>!</h2>''"
    and b: "ascii ''<p>'' @ post_text newer_post @ ascii ''</p>''
              = ascii ''<p><script>alert(1)</script> & more</p>''"
    by (simp_all add: newer_post_def ascii_def)
  from generate_html_verbatim[OF g p] g show ?thesis unfolding t b by blast
qed
end
